theory Spec2Isabelle
  imports Main "HOL-Library.AList"
begin

section \<open>models/instance.go\<close>

text \<open>
  The two structs of the data model. Timestamps (Go \<open>time.Time\<close>) are integers:
  milliseconds since the Unix epoch, the resolution of a stored BSON datetime.
  Go's \<open>int\<close> is modelled as \<open>int\<close>; no arithmetic is done on ports or versions.
\<close>

record Metadata =
  Environment :: string
  Region :: string
  Version :: int
  Developer :: string
  Experimental :: bool

record Instance =
  ServiceName :: string
  ID :: string
  Host :: string
  Port :: int
  Mode :: string
  Metadata :: Metadata
  Health :: string
  LastHeartbeat :: int

section \<open>The MongoDB collection\<close>

text \<open>
  The driver and the server are not part of the repository. The collection is
  modelled in memory as the list of its documents in natural order, each document
  having the shape that the \<open>bson\<close> tags of \<open>models.Instance\<close> give it. A BSON value is
  a string, a boolean, an integer, a datetime or the embedded metadata document.
  Input and output failures of the driver are outside the model.
\<close>

datatype bson = BString string | BBool bool | BInt int | BTime int | BMeta Metadata

type_synonym coll = "Instance list"

text \<open>The document the driver marshals from an \<open>Instance\<close> (field names from the \<open>bson\<close> tags).\<close>

definition marshal_instance :: "Instance \<Rightarrow> (string \<times> bson) list" where
  "marshal_instance i =
     [(''serviceName'', BString (ServiceName i)),
      (''id'', BString (ID i)),
      (''host'', BString (Host i)),
      (''port'', BInt (Port i)),
      (''mode'', BString (Mode i)),
      (''metadata'', BMeta (Metadata i)),
      (''health'', BString (Health i)),
      (''lastHeartbeat'', BTime (LastHeartbeat i))]"

definition md_field :: "Metadata \<Rightarrow> string \<Rightarrow> bson option" where
  "md_field m k =
     (if k = ''environment'' then Some (BString (Environment m))
      else if k = ''region'' then Some (BString (Region m))
      else if k = ''version'' then Some (BInt (Version m))
      else if k = ''developer'' then Some (BString (Developer m))
      else if k = ''experimental'' then Some (BBool (Experimental m))
      else None)"

text \<open>
  Resolution of a (possibly dotted) field path in a stored document: a path below
  \<open>metadata.\<close> reads the embedded document, any other path reads a top-level field.
  All leaves are scalars, so every other path resolves to nothing.
\<close>

definition doc_field :: "Instance \<Rightarrow> string \<Rightarrow> bson option" where
  "doc_field d key =
     (if take 9 key = ''metadata.'' then md_field (Metadata d) (drop 9 key)
      else map_of (marshal_instance d) key)"

text \<open>
  A query condition on one field: equality with a value, or \<open>$gte\<close> / \<open>$lt\<close> against a
  datetime. Comparison operators only match a value of the same BSON type, and a
  missing field matches none of the conditions used here.
\<close>

datatype cond = Eq bson | Gte int | Lt int

fun cond_holds :: "bson option \<Rightarrow> cond \<Rightarrow> bool" where
  "cond_holds (Some v) (Eq w) = (v = w)"
| "cond_holds (Some (BTime t)) (Gte c) = (c \<le> t)"
| "cond_holds (Some (BTime t)) (Lt c) = (t < c)"
| "cond_holds _ _ = False"

text \<open>A filter (\<open>bson.M\<close>) is a conjunction of conditions, one per key.\<close>

type_synonym bsonM = "(string \<times> cond) list"

definition matches :: "Instance \<Rightarrow> bsonM \<Rightarrow> bool" where
  "matches d flt = list_all (\<lambda>(k, c). cond_holds (doc_field d k) c) flt"

text \<open>
  \<open>$set\<close> of one field. The values written by this program are always of the field's
  own type; a value of another type cannot be stored in the typed document and is
  left out of the model (the document is returned as it is).
\<close>

definition set_field :: "string \<Rightarrow> bson \<Rightarrow> Instance \<Rightarrow> Instance" where
  "set_field k v d =
     (if k = ''serviceName'' then (case v of BString s \<Rightarrow> d\<lparr>ServiceName := s\<rparr> | _ \<Rightarrow> d)
      else if k = ''id'' then (case v of BString s \<Rightarrow> d\<lparr>ID := s\<rparr> | _ \<Rightarrow> d)
      else if k = ''host'' then (case v of BString s \<Rightarrow> d\<lparr>Host := s\<rparr> | _ \<Rightarrow> d)
      else if k = ''port'' then (case v of BInt n \<Rightarrow> d\<lparr>Port := n\<rparr> | _ \<Rightarrow> d)
      else if k = ''mode'' then (case v of BString s \<Rightarrow> d\<lparr>Mode := s\<rparr> | _ \<Rightarrow> d)
      else if k = ''metadata'' then (case v of BMeta m \<Rightarrow> d\<lparr>Metadata := m\<rparr> | _ \<Rightarrow> d)
      else if k = ''health'' then (case v of BString s \<Rightarrow> d\<lparr>Health := s\<rparr> | _ \<Rightarrow> d)
      else if k = ''lastHeartbeat'' then (case v of BTime t \<Rightarrow> d\<lparr>LastHeartbeat := t\<rparr> | _ \<Rightarrow> d)
      else d)"

definition apply_set :: "(string \<times> bson) list \<Rightarrow> Instance \<Rightarrow> Instance" where
  "apply_set upd d = fold (\<lambda>(k, v). set_field k v) upd d"

text \<open>
  A field that a document does not have decodes to Go's zero value; the zero
  \<open>time.Time\<close> is 1 January of year 1, in milliseconds before the epoch.
\<close>

definition zero_time :: int where
  "zero_time = - 62135596800000"

definition zero_instance :: Instance where
  "zero_instance =
     \<lparr>ServiceName = [], ID = [], Host = [], Port = 0, Mode = [],
      Metadata = \<lparr>Environment = [], Region = [], Version = 0, Developer = [],
                  Experimental = False\<rparr>,
      Health = [], LastHeartbeat = zero_time\<rparr>"

text \<open>An upsert that matches nothing inserts the filter's equality fields, updated.\<close>

definition upsert_seed :: "bsonM \<Rightarrow> Instance" where
  "upsert_seed flt =
     fold (\<lambda>(k, c) d. case c of Eq v \<Rightarrow> set_field k v d | _ \<Rightarrow> d) flt zero_instance"

text \<open>Update of the first document that satisfies \<open>p\<close>; \<open>None\<close> when there is none.\<close>

fun update_first :: "(Instance \<Rightarrow> bool) \<Rightarrow> (Instance \<Rightarrow> Instance) \<Rightarrow> coll \<Rightarrow> coll option" where
  "update_first p f [] = None"
| "update_first p f (d # ds) =
     (if p d then Some (f d # ds)
      else (case update_first p f ds of None \<Rightarrow> None | Some ds' \<Rightarrow> Some (d # ds')))"

record update_result =
  MatchedCount :: nat
  UpsertedCount :: nat

definition UpdateOne :: "bsonM \<Rightarrow> (string \<times> bson) list \<Rightarrow> bool \<Rightarrow> coll \<Rightarrow> update_result \<times> coll" where
  "UpdateOne flt upd upsert c =
     (case update_first (\<lambda>d. matches d flt) (apply_set upd) c of
        Some c' \<Rightarrow> (\<lparr>MatchedCount = 1, UpsertedCount = 0\<rparr>, c')
      | None \<Rightarrow>
          if upsert then (\<lparr>MatchedCount = 0, UpsertedCount = 1\<rparr>, c @ [apply_set upd (upsert_seed flt)])
          else (\<lparr>MatchedCount = 0, UpsertedCount = 0\<rparr>, c))"

definition Find_docs :: "bsonM \<Rightarrow> coll \<Rightarrow> Instance list" where
  "Find_docs flt c = filter (\<lambda>d. matches d flt) c"

definition DeleteMany :: "bsonM \<Rightarrow> coll \<Rightarrow> coll" where
  "DeleteMany flt c = filter (\<lambda>d. \<not> matches d flt) c"

section \<open>repository: MongoRepo\<close>

datatype error = ErrNoDocuments | BindError | IndexOutOfRange

text \<open>
  Each method takes the clock reading \<open>now\<close> of its \<open>time.Now()\<close> call, at the
  resolution of a stored datetime, and the collection, and returns Go's \<open>error\<close>
  (\<open>None\<close> is \<open>nil\<close>) with the collection after the call.
\<close>

definition key_filter :: "string \<Rightarrow> string \<Rightarrow> bsonM" where
  "key_filter serviceName ident = [(''serviceName'', Eq (BString serviceName)), (''id'', Eq (BString ident))]"

definition Register :: "int \<Rightarrow> Instance \<Rightarrow> coll \<Rightarrow> error option \<times> coll" where
  "Register now inst0 c =
     (let inst = inst0\<lparr>LastHeartbeat := now\<rparr>;
          inst = inst\<lparr>Health := ''UP''\<rparr>;
          flt = key_filter (ServiceName inst) (ID inst);
          update = marshal_instance inst
      in (None, snd (UpdateOne flt update True c)))"

definition UpdateHeartbeat :: "int \<Rightarrow> string \<Rightarrow> string \<Rightarrow> coll \<Rightarrow> error option \<times> coll" where
  "UpdateHeartbeat now serviceName ident c =
     (let flt = key_filter serviceName ident;
          update = [(''lastHeartbeat'', BTime now), (''health'', BString ''UP'')];
          (res, c') = UpdateOne flt update False c
      in if MatchedCount res = 0 then (Some ErrNoDocuments, c') else (None, c'))"

text \<open>
  A Go slice is either \<open>nil\<close> or a (possibly empty) sequence. The driver's
  \<open>Cursor.All\<close> appends the decoded documents to the slice it is given and stores the
  result back; with no document a \<open>nil\<close> slice is not modified.
\<close>

datatype 'a slice = NilSlice | Slice "'a list"

fun elems :: "'a slice \<Rightarrow> 'a list" where
  "elems NilSlice = []"
| "elems (Slice xs) = xs"

fun cursor_All :: "Instance list \<Rightarrow> Instance slice \<Rightarrow> Instance slice" where
  "cursor_All [] s = (case s of NilSlice \<Rightarrow> NilSlice | Slice _ \<Rightarrow> Slice [])"
| "cursor_All (d # ds) s = Slice (d # ds)"

definition Find_filter :: "int \<Rightarrow> string \<Rightarrow> string \<Rightarrow> (string \<times> bson) list \<Rightarrow> bool \<Rightarrow> int \<Rightarrow> bsonM" where
  "Find_filter now serviceName mode metadata aliveOnly ttl =
     (let flt = [];
          flt = (if serviceName \<noteq> [] then AList.update ''serviceName'' (Eq (BString serviceName)) flt
                 else flt);
          flt = (if mode \<noteq> [] then AList.update ''mode'' (Eq (BString mode)) flt else flt);
          flt = fold (\<lambda>(k, v). AList.update (''metadata.'' @ k) (Eq v)) metadata flt
      in if aliveOnly then (let cutoff = now - ttl in AList.update ''lastHeartbeat'' (Gte cutoff) flt)
         else flt)"

definition Find :: "int \<Rightarrow> string \<Rightarrow> string \<Rightarrow> (string \<times> bson) list \<Rightarrow> bool \<Rightarrow> int \<Rightarrow> coll \<Rightarrow> error + Instance slice" where
  "Find now serviceName mode metadata aliveOnly ttl c =
     (let flt = Find_filter now serviceName mode metadata aliveOnly ttl;
          cur = Find_docs flt c;
          instances = NilSlice
      in Inr (cursor_All cur instances))"

definition CleanupDead :: "int \<Rightarrow> int \<Rightarrow> coll \<Rightarrow> error option \<times> coll" where
  "CleanupDead now ttl c =
     (let cutoff = now - ttl
      in (None, DeleteMany [(''lastHeartbeat'', Lt cutoff)] c))"

section \<open>handlers/ws.go\<close>

datatype ServiceUpdateAction = ActionRegister | ActionDeregister | ActionHeartbeat

record ServiceUpdate =
  Action :: ServiceUpdateAction
  Service :: Instance

text \<open>
  A websocket connection: whether the peer still accepts writes, whether \<open>Close\<close> was
  called, and the messages written so far. Connections live in a heap indexed by
  their address; \<open>clients\<close> is the key set of the global map, in the order in which
  the \<open>range\<close> loop happens to visit it.
\<close>

record conn =
  peer_ok :: bool
  closed :: bool
  written :: "ServiceUpdate list"

record hub =
  clients :: "nat list"
  heap :: "nat \<Rightarrow> conn"

datatype write_error = WriteError

definition WriteJSON :: "conn \<Rightarrow> ServiceUpdate \<Rightarrow> write_error option \<times> conn" where
  "WriteJSON cn msg =
     (if closed cn \<or> \<not> peer_ok cn then (Some WriteError, cn)
      else (None, cn\<lparr>written := written cn @ [msg]\<rparr>))"

definition Close :: "conn \<Rightarrow> conn" where
  "Close cn = cn\<lparr>closed := True\<rparr>"

definition broadcast_step :: "ServiceUpdate \<Rightarrow> nat \<Rightarrow> hub \<Rightarrow> hub" where
  "broadcast_step msg client h =
     (case WriteJSON (heap h client) msg of
        (None, cn) \<Rightarrow> h\<lparr>heap := (heap h)(client := cn)\<rparr>
      | (Some err, cn) \<Rightarrow>
          h\<lparr>heap := (heap h)(client := Close cn), clients := removeAll client (clients h)\<rparr>)"

definition BroadcastMessage :: "ServiceUpdate \<Rightarrow> hub \<Rightarrow> hub" where
  "BroadcastMessage msg h = fold (broadcast_step msg) (clients h) h"

section \<open>handlers/http.go\<close>

definition parseString :: "string \<Rightarrow> bson" where
  "parseString s =
     (if s = ''true'' then BBool True
      else if s = ''false'' then BBool False
      else BString s)"

text \<open>
  The parsed query string is the list of its key/value pairs in order of appearance.
  \<open>URL_Query\<close> groups the values by key (\<open>url.Values\<close>); \<open>Query\<close> is gin's \<open>c.Query\<close>:
  the first value of the key, or the empty string.
\<close>

definition URL_Query :: "(string \<times> string) list \<Rightarrow> (string \<times> string list) list" where
  "URL_Query q = map (\<lambda>k. (k, map snd (filter (\<lambda>p. fst p = k) q))) (remdups (map fst q))"

definition Query :: "(string \<times> string) list \<Rightarrow> string \<Rightarrow> string" where
  "Query q key = (case map_of (URL_Query q) key of Some (v # _) \<Rightarrow> v | _ \<Rightarrow> [])"

text \<open>The loop of the lookup handler that fills \<open>metadata\<close>; \<open>vals[0]\<close> panics on an empty list.\<close>

fun lookup_metadata :: "(string \<times> string list) list \<Rightarrow> (string \<times> bson) list \<Rightarrow> error + (string \<times> bson) list" where
  "lookup_metadata [] metadata = Inr metadata"
| "lookup_metadata ((key, vals) # rest) metadata =
     (if key = ''service'' \<or> key = ''mode'' then lookup_metadata rest metadata
      else (case vals of
              [] \<Rightarrow> Inl IndexOutOfRange
            | v # _ \<Rightarrow> lookup_metadata rest (AList.update key (parseString v) metadata)))"

text \<open>The validation that the \<open>binding\<close> tags of \<open>models.Instance\<close> ask for.\<close>

definition oneof_env :: "string \<Rightarrow> bool" where
  "oneof_env s = (s = ''dev'' \<or> s = ''staging'' \<or> s = ''prod'')"

definition binding_ok :: "Instance \<Rightarrow> bool" where
  "binding_ok i =
     (ServiceName i \<noteq> [] \<and> ID i \<noteq> [] \<and> Host i \<noteq> [] \<and> Port i \<noteq> 0 \<and>
      Mode i \<noteq> [] \<and> oneof_env (Mode i) \<and>
      Environment (Metadata i) \<noteq> [] \<and> oneof_env (Environment (Metadata i)) \<and>
      Region (Metadata i) \<noteq> [] \<and> Version (Metadata i) \<noteq> 0)"

text \<open>
  \<open>ShouldBindJSON\<close>: the body is \<open>None\<close> when it does not decode into the target
  struct; a decoded \<open>Instance\<close> is then validated.
\<close>

definition ShouldBindJSON :: "Instance option \<Rightarrow> error + Instance" where
  "ShouldBindJSON b =
     (case b of
        None \<Rightarrow> Inl BindError
      | Some i \<Rightarrow> if binding_ok i then Inr i else Inl BindError)"

datatype body =
    ErrorBody error
  | InstanceBody Instance
  | MessageBody string
  | ArrayBody "Instance list"
  | NullBody
  | NoBody

record response =
  status :: nat
  body :: body

text \<open>\<open>encoding/json\<close> writes a \<open>nil\<close> slice as \<open>null\<close> and any other slice as an array.\<close>

fun json_slice :: "Instance slice \<Rightarrow> body" where
  "json_slice NilSlice = NullBody"
| "json_slice (Slice xs) = ArrayBody xs"

text \<open>
  The state the routes work on: the collection behind \<open>repo\<close> and the global client
  registry of \<open>ws.go\<close>. Each handler maps a request and the state to the response and
  the state after it.
\<close>

record server =
  store :: coll
  ws :: hub

definition register_handler :: "int \<Rightarrow> Instance option \<Rightarrow> server \<Rightarrow> response \<times> server" where
  "register_handler now req srv =
     (case ShouldBindJSON req of
        Inl err \<Rightarrow> (\<lparr>status = 400, body = ErrorBody err\<rparr>, srv)
      | Inr inst \<Rightarrow>
          (case Register now inst (store srv) of
             (Some err, c) \<Rightarrow> (\<lparr>status = 500, body = ErrorBody err\<rparr>, srv\<lparr>store := c\<rparr>)
           | (None, c) \<Rightarrow> (\<lparr>status = 200, body = InstanceBody inst\<rparr>, srv\<lparr>store := c\<rparr>)))"

definition heartbeat_handler :: "int \<Rightarrow> (string \<times> string) option \<Rightarrow> server \<Rightarrow> response \<times> server" where
  "heartbeat_handler now req srv =
     (case req of
        None \<Rightarrow> (\<lparr>status = 400, body = ErrorBody BindError\<rparr>, srv)
      | Some (serviceName, ident) \<Rightarrow>
          (case UpdateHeartbeat now serviceName ident (store srv) of
             (Some err, c) \<Rightarrow> (\<lparr>status = 404, body = ErrorBody err\<rparr>, srv\<lparr>store := c\<rparr>)
           | (None, c) \<Rightarrow> (\<lparr>status = 200, body = MessageBody ''heartbeat ok''\<rparr>, srv\<lparr>store := c\<rparr>)))"

text \<open>
  A panic in a handler is recovered by the middleware of \<open>gin.Default()\<close>, which
  answers 500 without a body.
\<close>

definition lookup_handler :: "int \<Rightarrow> int \<Rightarrow> (string \<times> string) list \<Rightarrow> server \<Rightarrow> response \<times> server" where
  "lookup_handler now heartbeatTTL q srv =
     (let service = Query q ''service'';
          mode = Query q ''mode''
      in case lookup_metadata (URL_Query q) [] of
           Inl err \<Rightarrow> (\<lparr>status = 500, body = NoBody\<rparr>, srv)
         | Inr metadata \<Rightarrow>
             (case Find now service mode metadata True heartbeatTTL (store srv) of
                Inl err \<Rightarrow> (\<lparr>status = 500, body = ErrorBody err\<rparr>, srv)
              | Inr instances \<Rightarrow> (\<lparr>status = 200, body = json_slice instances\<rparr>, srv)))"

section \<open>main.go: the cleanup goroutine\<close>

text \<open>One tick of the ticker: the sweep runs and its error is discarded.\<close>

definition cleanup_tick :: "int \<Rightarrow> int \<Rightarrow> server \<Rightarrow> server" where
  "cleanup_tick now heartbeatTTL srv = srv\<lparr>store := snd (CleanupDead now heartbeatTTL (store srv))\<rparr>"

section \<open>Closed forms\<close>

text \<open>The filter of \<open>Find\<close> before its loop over \<open>metadata\<close>.\<close>

definition base_filter :: "string \<Rightarrow> string \<Rightarrow> bsonM" where
  "base_filter sn mode = (if sn \<noteq> [] then [(''serviceName'', Eq (BString sn))] else []) @
      (if mode \<noteq> [] then [(''mode'', Eq (BString mode))] else [])"

text \<open>
  The \<open>metadata\<close> map that the loop of the lookup handler builds: one entry per query
  key other than \<open>service\<close> and \<open>mode\<close>, holding the key's first value, coerced.
\<close>

definition query_metadata :: "(string \<times> string) list \<Rightarrow> (string \<times> bson) list" where
  "query_metadata q =
     map (\<lambda>(k, vs). (k, parseString (hd vs)))
       (filter (\<lambda>(k, vs). k \<noteq> ''service'' \<and> k \<noteq> ''mode'') (URL_Query q))"

section \<open>Example data\<close>

definition order_o1 :: Instance where
  "order_o1 =
     \<lparr>ServiceName = ''order-service'', ID = ''o1'', Host = ''127.0.0.1'', Port = 8080, Mode = ''dev'',
      Metadata = \<lparr>Environment = ''dev'', Region = ''us-east'', Version = 1, Developer = [],
                  Experimental = False\<rparr>,
      Health = [], LastHeartbeat = zero_time\<rparr>"

definition pay_p2 :: Instance where
  "pay_p2 =
     \<lparr>ServiceName = ''pay-service'', ID = ''p2'', Host = ''10.0.0.2'', Port = 9000, Mode = ''prod'',
      Metadata = \<lparr>Environment = ''prod'', Region = ''eu-west'', Version = 2, Developer = ''john'',
                  Experimental = True\<rparr>,
      Health = ''UP'', LastHeartbeat = 400\<rparr>"

definition hub0 :: hub where
  "hub0 = \<lparr>clients = [1, 2, 3], heap = (\<lambda>n. \<lparr>peer_ok = (n \<noteq> 2), closed = False, written = []\<rparr>)\<rparr>"

definition srv0 :: server where
  "srv0 = \<lparr>store = [pay_p2], ws = hub0\<rparr>"

definition msg0 :: ServiceUpdate where
  "msg0 = \<lparr>Action = ActionRegister, Service = order_o1\<rparr>"

section \<open>The store operations\<close>

lemma apply_set_marshal: "apply_set (marshal_instance i) d = i"
  by (simp add: apply_set_def marshal_instance_def set_field_def)

lemma matches_key_filter:
  "matches d (key_filter s i) \<longleftrightarrow> ServiceName d = s \<and> ID d = i"
  by (simp add: matches_def key_filter_def doc_field_def marshal_instance_def)

lemma update_first_None: "update_first p f c = None \<longleftrightarrow> (\<forall>d\<in>set c. \<not> p d)"
  by (induction c) (auto split: option.splits)

lemma update_first_Some:
  "update_first p f c = Some c' \<Longrightarrow>
     \<exists>pre old post. c = pre @ old # post \<and> (\<forall>d\<in>set pre. \<not> p d) \<and> p old \<and> c' = pre @ f old # post"
proof (induction c arbitrary: c')
  case Nil
  then show ?case by simp
next
  case (Cons d ds)
  show ?case
  proof (cases "p d")
    case True
    with Cons.prems have "c' = f d # ds" by simp
    with True show ?thesis by (intro exI[of _ "[]"]) auto
  next
    case False
    with Cons.prems obtain ds' where u: "update_first p f ds = Some ds'" and c': "c' = d # ds'"
      by (auto split: option.splits)
    from Cons.IH[OF u] obtain pre old post where
      "ds = pre @ old # post" "\<forall>d\<in>set pre. \<not> p d" "p old" "ds' = pre @ f old # post" by blast
    with False c' show ?thesis by (intro exI[of _ "d # pre"]) auto
  qed
qed

lemma apply_set_heartbeat:
  "apply_set [(''lastHeartbeat'', BTime now), (''health'', BString ''UP'')] d = d\<lparr>LastHeartbeat := now, Health := ''UP''\<rparr>"
  by (simp add: apply_set_def set_field_def)

text \<open>
  Claim C1. \<open>Register\<close> never fails in the model. When a document with the key
  \<open>(serviceName, id)\<close> exists, the first such document is replaced, in place, by the
  payload with \<open>lastHeartbeat = now\<close> and \<open>health = "UP"\<close>; otherwise that record is
  appended. The stored record depends on the payload and the clock only: neither the
  caller's values of the two fields nor any field of the previous record remain.
\<close>

theorem Register_upsert:
  "fst (Register now inst c) = None \<and>
   (if \<exists>d\<in>set c. ServiceName d = ServiceName inst \<and> ID d = ID inst
    then \<exists>pre old post. c = pre @ old # post \<and>
           (\<forall>d\<in>set pre. \<not> (ServiceName d = ServiceName inst \<and> ID d = ID inst)) \<and>
           ServiceName old = ServiceName inst \<and> ID old = ID inst \<and>
           snd (Register now inst c) = pre @ inst\<lparr>LastHeartbeat := now, Health := ''UP''\<rparr> # post
    else snd (Register now inst c) = c @ [inst\<lparr>LastHeartbeat := now, Health := ''UP''\<rparr>])"
proof -
  let ?p = "\<lambda>d. matches d (key_filter (ServiceName inst) (ID inst))"
  let ?new = "inst\<lparr>LastHeartbeat := now, Health := ''UP''\<rparr>"
  let ?f = "apply_set (marshal_instance ?new)"
  have f: "?f d = ?new" for d by (rule apply_set_marshal)
  have R: "Register now inst c = (None, snd (UpdateOne (key_filter (ServiceName inst) (ID inst)) (marshal_instance ?new) True c))"
    by (simp add: Register_def Let_def)
  have fstR: "fst (Register now inst c) = None" by (simp add: R)
  show ?thesis
  proof (cases "update_first ?p ?f c")
    case None
    then have "\<forall>d\<in>set c. \<not> ?p d" by (simp add: update_first_None)
    then have no: "\<not> (\<exists>d\<in>set c. ServiceName d = ServiceName inst \<and> ID d = ID inst)"
      by (simp add: matches_key_filter)
    from None have "snd (Register now inst c) = c @ [?new]"
      by (simp add: R UpdateOne_def f)
    with no fstR show ?thesis by (simp only: if_not_P simp_thms)
  next
    case (Some c')
    from update_first_Some[OF Some] obtain pre old post where
      c: "c = pre @ old # post" and pre: "\<forall>d\<in>set pre. \<not> ?p d" and old: "?p old"
      and c': "c' = pre @ ?f old # post" by blast
    from old have k: "ServiceName old = ServiceName inst" "ID old = ID inst"
      by (simp_all add: matches_key_filter)
    from c k have ex: "\<exists>d\<in>set c. ServiceName d = ServiceName inst \<and> ID d = ID inst" by auto
    from Some c' have s: "snd (Register now inst c) = pre @ ?new # post"
      by (simp add: R UpdateOne_def f)
    from pre have pre': "\<forall>d\<in>set pre. \<not> (ServiceName d = ServiceName inst \<and> ID d = ID inst)"
      by (simp add: matches_key_filter)
    have "\<exists>pre old post. c = pre @ old # post \<and>
           (\<forall>d\<in>set pre. \<not> (ServiceName d = ServiceName inst \<and> ID d = ID inst)) \<and>
           ServiceName old = ServiceName inst \<and> ID old = ID inst \<and>
           snd (Register now inst c) = pre @ ?new # post"
      using c pre' k s by blast
    with ex fstR show ?thesis by (simp only: if_P simp_thms)
  qed
qed

text \<open>Claim C1 at a concrete collection: a replacement and an insertion.\<close>

theorem Register_upsert_witness:
  "(\<exists>d\<in>set [pay_p2, order_o1]. ServiceName d = ''order-service'' \<and> ID d = ''o1'') \<and>
   Register 1000 (order_o1\<lparr>Port := 9090, Health := ''DOWN'', LastHeartbeat := 7\<rparr>) [pay_p2, order_o1] =
     (None, [pay_p2, order_o1\<lparr>Port := 9090, Health := ''UP'', LastHeartbeat := 1000\<rparr>]) \<and>
   Register 1000 order_o1 [pay_p2] = (None, [pay_p2, order_o1\<lparr>Health := ''UP'', LastHeartbeat := 1000\<rparr>])"
  using Register_upsert [of 1000 "order_o1\<lparr>Port := 9090, Health := ''DOWN'', LastHeartbeat := 7\<rparr>" "[pay_p2, order_o1]"]
  by (simp add: Register_def UpdateOne_def matches_def key_filter_def doc_field_def marshal_instance_def
      apply_set_def set_field_def upsert_seed_def zero_instance_def order_o1_def pay_p2_def)

text \<open>
  Claim C5. Without a document of the key, \<open>UpdateHeartbeat\<close> returns
  \<open>ErrNoDocuments\<close> and the collection as it was. With one, the first such document
  gets \<open>lastHeartbeat = now\<close> and \<open>health = "UP"\<close>; its other fields and all other
  documents are the same.
\<close>

theorem UpdateHeartbeat_touch:
  "(if \<exists>d\<in>set c. ServiceName d = serviceName \<and> ID d = ident
    then \<exists>pre old post. c = pre @ old # post \<and>
           (\<forall>d\<in>set pre. \<not> (ServiceName d = serviceName \<and> ID d = ident)) \<and>
           ServiceName old = serviceName \<and> ID old = ident \<and>
           UpdateHeartbeat now serviceName ident c =
             (None, pre @ old\<lparr>LastHeartbeat := now, Health := ''UP''\<rparr> # post)
    else UpdateHeartbeat now serviceName ident c = (Some ErrNoDocuments, c))"
proof -
  let ?p = "\<lambda>d. matches d (key_filter serviceName ident)"
  let ?upd = "[(''lastHeartbeat'', BTime now), (''health'', BString ''UP'')]"
  let ?f = "apply_set ?upd"
  show ?thesis
  proof (cases "update_first ?p ?f c")
    case None
    then have "\<forall>d\<in>set c. \<not> ?p d" by (simp add: update_first_None)
    then have no: "\<not> (\<exists>d\<in>set c. ServiceName d = serviceName \<and> ID d = ident)"
      by (simp add: matches_key_filter)
    from None have "UpdateHeartbeat now serviceName ident c = (Some ErrNoDocuments, c)"
      by (simp add: UpdateHeartbeat_def UpdateOne_def)
    with no show ?thesis by (simp only: if_not_P simp_thms)
  next
    case (Some c')
    from update_first_Some[OF Some] obtain pre old post where
      c: "c = pre @ old # post" and pre: "\<forall>d\<in>set pre. \<not> ?p d" and old: "?p old"
      and c': "c' = pre @ ?f old # post" by blast
    from old have k: "ServiceName old = serviceName" "ID old = ident"
      by (simp_all add: matches_key_filter)
    from c k have ex: "\<exists>d\<in>set c. ServiceName d = serviceName \<and> ID d = ident" by auto
    from Some c' have s: "UpdateHeartbeat now serviceName ident c =
        (None, pre @ old\<lparr>LastHeartbeat := now, Health := ''UP''\<rparr> # post)"
      by (simp add: UpdateHeartbeat_def UpdateOne_def apply_set_heartbeat)
    from pre have pre': "\<forall>d\<in>set pre. \<not> (ServiceName d = serviceName \<and> ID d = ident)"
      by (simp add: matches_key_filter)
    have "\<exists>pre old post. c = pre @ old # post \<and>
           (\<forall>d\<in>set pre. \<not> (ServiceName d = serviceName \<and> ID d = ident)) \<and>
           ServiceName old = serviceName \<and> ID old = ident \<and>
           UpdateHeartbeat now serviceName ident c =
             (None, pre @ old\<lparr>LastHeartbeat := now, Health := ''UP''\<rparr> # post)"
      using c pre' k s by blast
    with ex show ?thesis by (simp only: if_P simp_thms)
  qed
qed

text \<open>Claim C5 at a concrete collection: an unknown key and a known one.\<close>

theorem UpdateHeartbeat_touch_witness:
  "\<not> (\<exists>d\<in>set [pay_p2]. ServiceName d = ''order-service'' \<and> ID d = ''o1'') \<and>
   UpdateHeartbeat 1000 ''order-service'' ''o1'' [pay_p2] = (Some ErrNoDocuments, [pay_p2]) \<and>
   (\<exists>d\<in>set [order_o1, pay_p2]. ServiceName d = ''pay-service'' \<and> ID d = ''p2'') \<and>
   UpdateHeartbeat 1000 ''pay-service'' ''p2'' [order_o1, pay_p2] =
     (None, [order_o1, pay_p2\<lparr>LastHeartbeat := 1000\<rparr>])"
  using UpdateHeartbeat_touch [of "[pay_p2]" "''order-service''" "''o1''" 1000]
  by (simp add: UpdateHeartbeat_def UpdateOne_def matches_def key_filter_def doc_field_def
      marshal_instance_def apply_set_def set_field_def order_o1_def pay_p2_def)

lemma matches_Lt: "matches d [(''lastHeartbeat'', Lt cutoff)] \<longleftrightarrow> LastHeartbeat d < cutoff"
  by (simp add: matches_def doc_field_def marshal_instance_def)

text \<open>
  Claim C4. With cutoff \<open>now - ttl\<close>, \<open>CleanupDead\<close> returns no error and keeps exactly
  the documents whose \<open>lastHeartbeat\<close> is at least the cutoff, unchanged and in order:
  none older than the cutoff remains, and when nothing is older the collection is the
  same.
\<close>

theorem CleanupDead_sweep:
  "CleanupDead now ttl c = (None, filter (\<lambda>d. now - ttl \<le> LastHeartbeat d) c) \<and>
   (\<forall>d\<in>set (snd (CleanupDead now ttl c)). \<not> LastHeartbeat d < now - ttl) \<and>
   (\<forall>d\<in>set c. now - ttl \<le> LastHeartbeat d \<longrightarrow> d \<in> set (snd (CleanupDead now ttl c))) \<and>
   ((\<forall>d\<in>set c. \<not> LastHeartbeat d < now - ttl) \<longrightarrow> CleanupDead now ttl c = (None, c))"
proof -
  have eq: "CleanupDead now ttl c = (None, filter (\<lambda>d. now - ttl \<le> LastHeartbeat d) c)"
    by (simp add: CleanupDead_def DeleteMany_def matches_Lt not_less)
  have noop: "(\<forall>d\<in>set c. \<not> LastHeartbeat d < now - ttl) \<longrightarrow> filter (\<lambda>d. now - ttl \<le> LastHeartbeat d) c = c"
    by (simp add: not_less)
  show ?thesis using noop by (simp add: eq)
qed

text \<open>Claim C4 at a concrete collection: one stale record, then none.\<close>

theorem CleanupDead_sweep_witness:
  "CleanupDead 40000 30000 [order_o1\<lparr>LastHeartbeat := 9999\<rparr>, pay_p2\<lparr>LastHeartbeat := 10000\<rparr>] =
     (None, [pay_p2\<lparr>LastHeartbeat := 10000\<rparr>]) \<and>
   \<not> LastHeartbeat (pay_p2\<lparr>LastHeartbeat := 10000\<rparr>) < 40000 - 30000 \<and>
   CleanupDead 40000 30000 [pay_p2\<lparr>LastHeartbeat := 10000\<rparr>] = (None, [pay_p2\<lparr>LastHeartbeat := 10000\<rparr>])"
  using CleanupDead_sweep [of 40000 30000 "[order_o1\<lparr>LastHeartbeat := 9999\<rparr>, pay_p2\<lparr>LastHeartbeat := 10000\<rparr>]"]
    CleanupDead_sweep [of 40000 30000 "[pay_p2\<lparr>LastHeartbeat := 10000\<rparr>]"]
  by (simp add: order_o1_def pay_p2_def)

section \<open>The filter of Find\<close>

lemma update_fresh: "k \<notin> fst ` set al \<Longrightarrow> AList.update k v al = al @ [(k, v)]"
  by (induction al) auto

lemma fold_metadata_keys:
  "fst ` set (fold (\<lambda>(k, v). AList.update (g k) (Eq v)) md flt) =
     fst ` set flt \<union> g ` fst ` set md"
proof (induction md arbitrary: flt)
  case Nil
  then show ?case by simp
next
  case (Cons kv md)
  obtain k v where kv: "kv = (k, v)" by (cases kv)
  show ?case by (auto simp: kv Cons.IH dom_update)
qed

lemma fold_metadata:
  "distinct (map fst md) \<Longrightarrow> inj g \<Longrightarrow> \<forall>k\<in>fst ` set md. g k \<notin> fst ` set flt \<Longrightarrow>
   fold (\<lambda>(k, v). AList.update (g k) (Eq v)) md flt = flt @ map (\<lambda>(k, v). (g k, Eq v)) md"
proof (induction md arbitrary: flt)
  case Nil
  then show ?case by simp
next
  case (Cons kv md)
  obtain k v where kv: "kv = (k, v)" by (cases kv)
  from Cons.prems kv have fresh: "g k \<notin> fst ` set flt" by simp
  from Cons.prems kv have d: "distinct (map fst md)" and knot: "k \<notin> fst ` set md" by auto
  have "\<forall>k'\<in>fst ` set md. g k' \<notin> fst ` set (flt @ [(g k, Eq v)])"
    using Cons.prems(2,3) knot by (auto simp: kv dest: injD)
  from Cons.IH[OF d Cons.prems(2) this] show ?case
    by (simp add: kv update_fresh[OF fresh])
qed

lemma Find_filter_fold:
  "Find_filter now sn mode md False ttl =
     fold (\<lambda>(k, v). AList.update (''metadata.'' @ k) (Eq v)) md (base_filter sn mode)"
  by (simp add: Find_filter_def base_filter_def Let_def)

lemma Find_filter_alive:
  "Find_filter now sn mode md True ttl =
     Find_filter now sn mode md False ttl @ [(''lastHeartbeat'', Gte (now - ttl))]"
proof -
  have "''lastHeartbeat'' \<notin> fst ` set (Find_filter now sn mode md False ttl)"
    unfolding Find_filter_fold fold_metadata_keys by (auto simp: base_filter_def)
  then show ?thesis
    using update_fresh[of "''lastHeartbeat''" "Find_filter now sn mode md False ttl"]
    by (simp add: Find_filter_def Let_def)
qed

lemma matches_append: "matches d (f1 @ f2) \<longleftrightarrow> matches d f1 \<and> matches d f2"
  by (simp add: matches_def)

lemma matches_Gte: "matches d [(''lastHeartbeat'', Gte cutoff)] \<longleftrightarrow> cutoff \<le> LastHeartbeat d"
  by (simp add: matches_def doc_field_def marshal_instance_def)

lemma Find_filter_explicit:
  assumes "distinct (map fst md)"
  shows "Find_filter now sn mode md False ttl =
     base_filter sn mode @ map (\<lambda>(k, v). (''metadata.'' @ k, Eq v)) md"
proof -
  have i: "inj (\<lambda>k. ''metadata.'' @ k)" by (simp add: inj_on_def)
  have fresh: "\<forall>k\<in>fst ` set md. ''metadata.'' @ k \<notin> fst ` set (base_filter sn mode)"
    by (auto simp: base_filter_def)
  show ?thesis
    unfolding Find_filter_fold by (rule fold_metadata[OF assms i fresh])
qed

lemma matches_base_filter:
  "matches d (base_filter sn mode) \<longleftrightarrow>
     (sn \<noteq> [] \<longrightarrow> ServiceName d = sn) \<and> (mode \<noteq> [] \<longrightarrow> Mode d = mode)"
  by (simp add: base_filter_def matches_def doc_field_def marshal_instance_def)

lemma doc_field_metadata: "doc_field d (''metadata.'' @ k) = md_field (Metadata d) k"
  by (simp add: doc_field_def)

lemma cond_holds_Eq: "cond_holds x (Eq w) \<longleftrightarrow> x = Some w"
  by (cases x) auto

lemma matches_metadata:
  "matches d (map (\<lambda>(k, v). (''metadata.'' @ k, Eq v)) md) \<longleftrightarrow>
     (\<forall>(k, v)\<in>set md. md_field (Metadata d) k = Some v)"
  by (induction md) (auto simp: matches_def doc_field_def cond_holds_Eq)

lemma matches_Find_filter:
  assumes "distinct (map fst md)"
  shows "matches d (Find_filter now sn mode md alive ttl) \<longleftrightarrow>
     (sn \<noteq> [] \<longrightarrow> ServiceName d = sn) \<and> (mode \<noteq> [] \<longrightarrow> Mode d = mode) \<and>
     (\<forall>(k, v)\<in>set md. md_field (Metadata d) k = Some v) \<and>
     (alive \<longrightarrow> now - ttl \<le> LastHeartbeat d)"
proof -
  have base: "matches d (Find_filter now sn mode md False ttl) \<longleftrightarrow>
     (sn \<noteq> [] \<longrightarrow> ServiceName d = sn) \<and> (mode \<noteq> [] \<longrightarrow> Mode d = mode) \<and>
     (\<forall>(k, v)\<in>set md. md_field (Metadata d) k = Some v)"
    unfolding Find_filter_explicit[OF assms] matches_append matches_metadata matches_base_filter
    by simp
  show ?thesis
  proof (cases alive)
    case True
    then show ?thesis by (simp add: Find_filter_alive matches_append matches_Gte base)
  next
    case False
    then show ?thesis by (simp add: base)
  qed
qed

lemma elems_cursor_All: "elems (cursor_All ds NilSlice) = ds"
  by (cases ds) simp_all

lemma map_fst_URL_Query: "map fst (URL_Query q) = remdups (map fst q)"
  by (simp add: URL_Query_def comp_def)

lemma first_value:
  "k \<in> fst ` set q \<Longrightarrow> \<exists>v rest. map snd (filter (\<lambda>p. fst p = k) q) = v # rest \<and> map_of q k = Some v"
  by (induction q) auto

lemma URL_Query_vals:
  assumes "(k, vs) \<in> set (URL_Query q)"
  shows "\<exists>v rest. vs = v # rest \<and> map_of q k = Some v"
proof -
  from assms have "k \<in> fst ` set q" and "vs = map snd (filter (\<lambda>p. fst p = k) q)"
    by (auto simp: URL_Query_def)
  with first_value[of k q] show ?thesis by simp
qed

lemma map_of_URL_Query:
  "map_of (URL_Query q) k =
     (if k \<in> fst ` set q then Some (map snd (filter (\<lambda>p. fst p = k) q)) else None)"
  by (simp add: URL_Query_def map_of_map_restrict restrict_map_def)

lemma Query_eq: "Query q key = (case map_of q key of Some v \<Rightarrow> v | None \<Rightarrow> [])"
proof (cases "key \<in> fst ` set q")
  case True
  obtain v rest where
    "map snd (filter (\<lambda>p. fst p = key) q) = v # rest" "map_of q key = Some v"
    using first_value[OF True] by auto
  with True show ?thesis by (simp add: Query_def map_of_URL_Query)
next
  case False
  then have "map_of q key = None" by (simp add: map_of_eq_None_iff)
  with False show ?thesis by (simp add: Query_def map_of_URL_Query)
qed

lemma lookup_metadata_acc:
  "distinct (map fst kvs) \<Longrightarrow> \<forall>(k, vs)\<in>set kvs. vs \<noteq> [] \<Longrightarrow>
   \<forall>k\<in>fst ` set kvs. k \<notin> fst ` set md \<Longrightarrow>
   lookup_metadata kvs md =
     Inr (md @ map (\<lambda>(k, vs). (k, parseString (hd vs)))
                 (filter (\<lambda>(k, vs). k \<noteq> ''service'' \<and> k \<noteq> ''mode'') kvs))"
proof (induction kvs arbitrary: md)
  case Nil
  then show ?case by simp
next
  case (Cons kv kvs)
  obtain k vs where kv: "kv = (k, vs)" by (cases kv)
  from Cons.prems kv obtain v rest where vs: "vs = v # rest" by (cases vs) auto
  from Cons.prems kv have d: "distinct (map fst kvs)" and ne: "\<forall>(k, vs)\<in>set kvs. vs \<noteq> []"
    and knot: "k \<notin> fst ` set kvs" and kfresh: "k \<notin> fst ` set md"
    and fresh: "\<forall>k\<in>fst ` set kvs. k \<notin> fst ` set md" by auto
  show ?case
  proof (cases "k = ''service'' \<or> k = ''mode''")
    case True
    with Cons.IH[OF d ne fresh] show ?thesis by (auto simp: kv)
  next
    case False
    have "\<forall>k'\<in>fst ` set kvs. k' \<notin> fst ` set (md @ [(k, parseString v)])"
      using fresh knot by auto
    from Cons.IH[OF d ne this] False show ?thesis
      by (simp add: kv vs update_fresh[OF kfresh])
  qed
qed

lemma lookup_metadata_URL_Query: "lookup_metadata (URL_Query q) [] = Inr (query_metadata q)"
proof -
  have d: "distinct (map fst (URL_Query q))" by (simp add: map_fst_URL_Query)
  have "vs \<noteq> []" if "(k, vs) \<in> set (URL_Query q)" for k vs
    using URL_Query_vals[OF that] by auto
  then have ne: "\<forall>(k, vs)\<in>set (URL_Query q). vs \<noteq> []" by auto
  from lookup_metadata_acc[OF d ne, of "[]"] show ?thesis by (simp add: query_metadata_def)
qed

lemma distinct_query_metadata: "distinct (map fst (query_metadata q))"
proof -
  have "map fst (query_metadata q) =
      filter (\<lambda>k. k \<noteq> ''service'' \<and> k \<noteq> ''mode'') (map fst (URL_Query q))"
    by (simp add: query_metadata_def filter_map comp_def case_prod_unfold)
  then show ?thesis by (simp add: map_fst_URL_Query)
qed

lemma set_query_metadata:
  "(k, v) \<in> set (query_metadata q) \<longleftrightarrow>
     k \<noteq> ''service'' \<and> k \<noteq> ''mode'' \<and> (\<exists>s. map_of q k = Some s \<and> v = parseString s)"
proof
  assume "(k, v) \<in> set (query_metadata q)"
  then obtain vs where in_q: "(k, vs) \<in> set (URL_Query q)" and k: "k \<noteq> ''service'' \<and> k \<noteq> ''mode''"
    and v: "v = parseString (hd vs)"
    by (auto simp: query_metadata_def)
  from URL_Query_vals[OF in_q] v k
  show "k \<noteq> ''service'' \<and> k \<noteq> ''mode'' \<and> (\<exists>s. map_of q k = Some s \<and> v = parseString s)"
    by auto
next
  assume a: "k \<noteq> ''service'' \<and> k \<noteq> ''mode'' \<and> (\<exists>s. map_of q k = Some s \<and> v = parseString s)"
  then obtain s where s: "map_of q k = Some s" "v = parseString s" by blast
  then have kin: "k \<in> fst ` set q" by (meson domI domIff map_of_eq_None_iff)
  obtain rest where
    vs: "map snd (filter (\<lambda>p. fst p = k) q) = s # rest"
    using first_value[OF kin] s by auto
  have "(k, map snd (filter (\<lambda>p. fst p = k) q)) \<in> set (URL_Query q)"
    using kin by (auto simp: URL_Query_def)
  then have "(\<lambda>(k, vs). (k, parseString (hd vs))) (k, map snd (filter (\<lambda>p. fst p = k) q))
      \<in> set (query_metadata q)"
    unfolding query_metadata_def set_map using a by (intro imageI) simp
  with s vs show "(k, v) \<in> set (query_metadata q)" by simp
qed

lemma lookup_handler_Find:
  "lookup_handler now ttl q srv =
     (\<lparr>status = 200,
       body = json_slice (cursor_All (Find_docs
          (Find_filter now (Query q ''service'') (Query q ''mode'') (query_metadata q) True ttl) (store srv)) NilSlice)\<rparr>, srv)"
  by (simp add: lookup_handler_def lookup_metadata_URL_Query Find_def Let_def)

lemma matches_lookup:
  "matches d (Find_filter now (Query q ''service'') (Query q ''mode'') (query_metadata q) alive ttl) \<longleftrightarrow>
     (Query q ''service'' \<noteq> [] \<longrightarrow> ServiceName d = Query q ''service'') \<and>
     (Query q ''mode'' \<noteq> [] \<longrightarrow> Mode d = Query q ''mode'') \<and>
     (\<forall>k s. map_of q k = Some s \<and> k \<noteq> ''service'' \<and> k \<noteq> ''mode'' \<longrightarrow>
            md_field (Metadata d) k = Some (parseString s)) \<and>
     (alive \<longrightarrow> now - ttl \<le> LastHeartbeat d)"
proof -
  have "(\<forall>(k, v)\<in>set (query_metadata q). md_field (Metadata d) k = Some v) \<longleftrightarrow>
        (\<forall>k s. map_of q k = Some s \<and> k \<noteq> ''service'' \<and> k \<noteq> ''mode'' \<longrightarrow>
            md_field (Metadata d) k = Some (parseString s))"
  proof (intro iffI allI impI)
    fix k s
    assume a: "\<forall>(k, v)\<in>set (query_metadata q). md_field (Metadata d) k = Some v"
      and b: "map_of q k = Some s \<and> k \<noteq> ''service'' \<and> k \<noteq> ''mode''"
    from b have "(k, parseString s) \<in> set (query_metadata q)"
      by (simp add: set_query_metadata)
    with a show "md_field (Metadata d) k = Some (parseString s)" by blast
  next
    assume a: "\<forall>k s. map_of q k = Some s \<and> k \<noteq> ''service'' \<and> k \<noteq> ''mode'' \<longrightarrow>
            md_field (Metadata d) k = Some (parseString s)"
    show "\<forall>(k, v)\<in>set (query_metadata q). md_field (Metadata d) k = Some v"
    proof (clarify)
      fix k v assume "(k, v) \<in> set (query_metadata q)"
      then obtain s where "k \<noteq> ''service''" "k \<noteq> ''mode''" "map_of q k = Some s" "v = parseString s"
        unfolding set_query_metadata by blast
      with a show "md_field (Metadata d) k = Some v" by blast
    qed
  qed
  then show ?thesis
    by (simp only: matches_Find_filter[OF distinct_query_metadata])
qed

lemma Find_Inr:
  "Find now sn mode md alive ttl c =
     Inr (cursor_All (filter (\<lambda>d. matches d (Find_filter now sn mode md alive ttl)) c) NilSlice)"
  by (simp add: Find_def Find_docs_def Let_def)

section \<open>Lookup\<close>

text \<open>
  Claim C3. An alive-only \<open>Find\<close> never fails and returns exactly the documents that
  satisfy the filter built from \<open>serviceName\<close>, \<open>mode\<close> and \<open>metadata\<close> and whose
  \<open>lastHeartbeat\<close> is at least \<open>now - ttl\<close>: none that is strictly older, and every
  matching one at or after the cutoff, the boundary included. \<open>GET /lookup\<close> answers
  with the result of that alive-only \<open>Find\<close>.
\<close>

theorem Find_aliveOnly:
  "\<exists>s. Find now sn mode md True ttl c = Inr s \<and>
     elems s = filter (\<lambda>d. matches d (Find_filter now sn mode md False ttl) \<and>
                          now - ttl \<le> LastHeartbeat d) c \<and>
     (\<forall>d\<in>set (elems s). \<not> LastHeartbeat d < now - ttl) \<and>
     (\<forall>d\<in>set c. matches d (Find_filter now sn mode md False ttl) \<and> now - ttl \<le> LastHeartbeat d
         \<longrightarrow> d \<in> set (elems s)) \<and>
     (sn = Query q ''service'' \<and> mode = Query q ''mode'' \<and> md = query_metadata q \<longrightarrow>
        lookup_handler now ttl q \<lparr>store = c, ws = h\<rparr> =
          (\<lparr>status = 200, body = json_slice s\<rparr>, \<lparr>store = c, ws = h\<rparr>))"
proof -
  let ?s = "cursor_All (filter (\<lambda>d. matches d (Find_filter now sn mode md True ttl)) c) NilSlice"
  have e: "elems ?s = filter (\<lambda>d. matches d (Find_filter now sn mode md False ttl) \<and>
                          now - ttl \<le> LastHeartbeat d) c"
    by (simp add: elems_cursor_All Find_filter_alive matches_append matches_Gte)
  have l: "sn = Query q ''service'' \<and> mode = Query q ''mode'' \<and> md = query_metadata q \<longrightarrow>
        lookup_handler now ttl q \<lparr>store = c, ws = h\<rparr> =
          (\<lparr>status = 200, body = json_slice ?s\<rparr>, \<lparr>store = c, ws = h\<rparr>)"
    by (simp add: lookup_handler_Find Find_docs_def)
  have "Find now sn mode md True ttl c = Inr ?s" by (rule Find_Inr)
  moreover have "\<forall>d\<in>set (elems ?s). \<not> LastHeartbeat d < now - ttl"
    unfolding e by simp
  moreover have "\<forall>d\<in>set c. matches d (Find_filter now sn mode md False ttl) \<and> now - ttl \<le> LastHeartbeat d
         \<longrightarrow> d \<in> set (elems ?s)"
    unfolding e by simp
  ultimately show ?thesis using e l by blast
qed

text \<open>Claim C3 at a concrete collection: one record just too old, one on the boundary.\<close>

theorem Find_aliveOnly_witness:
  "Find 40000 ''order-service'' [] [(''region'', BString ''us-east'')] True 30000
     [order_o1\<lparr>LastHeartbeat := 9999\<rparr>, order_o1\<lparr>ID := ''o2'', LastHeartbeat := 10000\<rparr>, pay_p2\<lparr>LastHeartbeat := 20000\<rparr>] =
     Inr (Slice [order_o1\<lparr>ID := ''o2'', LastHeartbeat := 10000\<rparr>])"
  using Find_aliveOnly [of 40000 "''order-service''" "[]" "[(''region'', BString ''us-east'')]" 30000
      "[order_o1\<lparr>LastHeartbeat := 9999\<rparr>, order_o1\<lparr>ID := ''o2'', LastHeartbeat := 10000\<rparr>, pay_p2\<lparr>LastHeartbeat := 20000\<rparr>]"]
  by (simp add: Find_def Find_docs_def Find_filter_def matches_def doc_field_def marshal_instance_def
      md_field_def order_o1_def pay_p2_def)

text \<open>
  Claim C10. With an empty \<open>serviceName\<close> the filter of \<open>Find\<close> does not depend on the
  service name of a document, and with an empty \<open>mode\<close> not on its mode; with both
  empty the result is every document that satisfies the metadata and liveness
  conditions, whatever its name and mode. So the empty string does not select the
  documents whose name or mode is empty.
\<close>

theorem Find_empty_unconstrained:
  "distinct (map fst md) \<Longrightarrow>
   matches d (Find_filter now [] mode md alive ttl) =
     matches (d\<lparr>ServiceName := x\<rparr>) (Find_filter now [] mode md alive ttl) \<and>
   matches d (Find_filter now sn [] md alive ttl) =
     matches (d\<lparr>Mode := x\<rparr>) (Find_filter now sn [] md alive ttl) \<and>
   (\<exists>s. Find now [] [] md alive ttl c = Inr s \<and>
        elems s = filter (\<lambda>d. (\<forall>(k, v)\<in>set md. md_field (Metadata d) k = Some v) \<and>
                             (alive \<longrightarrow> now - ttl \<le> LastHeartbeat d)) c)"
proof -
  assume d: "distinct (map fst md)"
  have "elems (cursor_All (filter (\<lambda>d. matches d (Find_filter now [] [] md alive ttl)) c) NilSlice) =
      filter (\<lambda>d. (\<forall>(k, v)\<in>set md. md_field (Metadata d) k = Some v) \<and>
                             (alive \<longrightarrow> now - ttl \<le> LastHeartbeat d)) c"
    by (simp add: elems_cursor_All matches_Find_filter[OF d])
  then have "\<exists>s. Find now [] [] md alive ttl c = Inr s \<and>
        elems s = filter (\<lambda>d. (\<forall>(k, v)\<in>set md. md_field (Metadata d) k = Some v) \<and>
                             (alive \<longrightarrow> now - ttl \<le> LastHeartbeat d)) c"
    unfolding Find_Inr by blast
  then show ?thesis by (simp add: matches_Find_filter[OF d])
qed

text \<open>Claim C10 at a concrete collection, which holds a record with an empty name and mode.\<close>

theorem Find_empty_unconstrained_witness:
  "distinct (map fst [(''experimental'', BBool False)]) \<and>
   Find 1000 [] [] [(''experimental'', BBool False)] False 30000
     [order_o1, pay_p2, order_o1\<lparr>ServiceName := [], Mode := []\<rparr>] =
     Inr (Slice [order_o1, order_o1\<lparr>ServiceName := [], Mode := []\<rparr>])"
  using Find_empty_unconstrained [of "[(''experimental'', BBool False)]" order_o1 1000 "[]" False 30000 "[]" "[]"
      "[order_o1, pay_p2, order_o1\<lparr>ServiceName := [], Mode := []\<rparr>]"]
  by (simp add: Find_def Find_docs_def Find_filter_def matches_def doc_field_def marshal_instance_def
      md_field_def order_o1_def pay_p2_def)

lemma parseString_cases:
  "parseString ''true'' = BBool True" "parseString ''false'' = BBool False"
  "s \<noteq> ''true'' \<Longrightarrow> s \<noteq> ''false'' \<Longrightarrow> parseString s = BString s"
  by (simp_all add: parseString_def)

lemma in_Find_filter_metadata:
  assumes "(k, v) \<in> set (query_metadata q)"
  shows "(''metadata.'' @ k, Eq v) \<in> set (Find_filter now sn mode (query_metadata q) alive ttl)"
proof -
  have "(''metadata.'' @ k, Eq v) \<in> (\<lambda>(k, v). (''metadata.'' @ k, Eq v)) ` set (query_metadata q)"
    using assms by (rule rev_image_eqI) simp
  then have "(''metadata.'' @ k, Eq v) \<in> set (Find_filter now sn mode (query_metadata q) False ttl)"
    unfolding Find_filter_explicit[OF distinct_query_metadata] by simp
  then show ?thesis by (cases alive) (simp_all add: Find_filter_alive)
qed

text \<open>
  Claim C9. \<open>parseString\<close> turns exactly \<open>"true"\<close> and \<open>"false"\<close> into booleans and
  leaves every other value a string, so \<open>"2"\<close> stays the string \<open>"2"\<close>, which the
  integer field \<open>version\<close> never equals. The lookup handler never panics; its metadata
  map has one entry per query key other than \<open>service\<close> and \<open>mode\<close>, the first value of
  the key coerced, and each entry is an equality condition on \<open>metadata.<key>\<close> in the
  filter of \<open>Find\<close>. The response holds the live documents that satisfy them.
\<close>

theorem lookup_filter_coercion:
  "parseString ''true'' = BBool True \<and> parseString ''false'' = BBool False \<and>
   (s \<noteq> ''true'' \<and> s \<noteq> ''false'' \<longrightarrow> parseString s = BString s) \<and>
   parseString ''2'' = BString ''2'' \<and> md_field m ''version'' \<noteq> Some (parseString ''2'') \<and>
   lookup_metadata (URL_Query q) [] = Inr (query_metadata q) \<and>
   ((k, v) \<in> set (query_metadata q) \<longleftrightarrow>
      k \<noteq> ''service'' \<and> k \<noteq> ''mode'' \<and> (\<exists>s. map_of q k = Some s \<and> v = parseString s)) \<and>
   ((k, v) \<in> set (query_metadata q) \<longrightarrow>
      (''metadata.'' @ k, Eq v) \<in> set (Find_filter now sn mode (query_metadata q) alive ttl)) \<and>
   fst (lookup_handler now ttl q srv) =
     \<lparr>status = 200,
      body = json_slice (cursor_All (filter (\<lambda>d.
         (Query q ''service'' \<noteq> [] \<longrightarrow> ServiceName d = Query q ''service'') \<and>
         (Query q ''mode'' \<noteq> [] \<longrightarrow> Mode d = Query q ''mode'') \<and>
         (\<forall>k s. map_of q k = Some s \<and> k \<noteq> ''service'' \<and> k \<noteq> ''mode'' \<longrightarrow>
                md_field (Metadata d) k = Some (parseString s)) \<and>
         now - ttl \<le> LastHeartbeat d) (store srv)) NilSlice)\<rparr>"
proof -
  have p: "parseString ''2'' = BString ''2''" by (simp add: parseString_def)
  have v: "md_field m ''version'' \<noteq> Some (parseString ''2'')" by (simp add: p md_field_def)
  have h: "fst (lookup_handler now ttl q srv) =
     \<lparr>status = 200,
      body = json_slice (cursor_All (filter (\<lambda>d.
         (Query q ''service'' \<noteq> [] \<longrightarrow> ServiceName d = Query q ''service'') \<and>
         (Query q ''mode'' \<noteq> [] \<longrightarrow> Mode d = Query q ''mode'') \<and>
         (\<forall>k s. map_of q k = Some s \<and> k \<noteq> ''service'' \<and> k \<noteq> ''mode'' \<longrightarrow>
                md_field (Metadata d) k = Some (parseString s)) \<and>
         now - ttl \<le> LastHeartbeat d) (store srv)) NilSlice)\<rparr>"
    unfolding lookup_handler_Find Find_docs_def matches_lookup by simp
  show ?thesis
    using parseString_cases p v lookup_metadata_URL_Query[of q] set_query_metadata[of k v q]
      in_Find_filter_metadata[of k v q now sn mode alive ttl] h
    by blast
qed

text \<open>Claim C9 at concrete queries: a boolean and a string filter, then \<open>version=2\<close>.\<close>

theorem lookup_filter_coercion_witness:
  "fst (lookup_handler 1000 30000
          [(''service'', ''pay-service''), (''experimental'', ''true''), (''region'', ''eu-west'')]
          \<lparr>store = [order_o1\<lparr>LastHeartbeat := 900\<rparr>, pay_p2\<lparr>LastHeartbeat := 900\<rparr>], ws = hub0\<rparr>) =
     \<lparr>status = 200, body = ArrayBody [pay_p2\<lparr>LastHeartbeat := 900\<rparr>]\<rparr> \<and>
   fst (lookup_handler 1000 30000 [(''service'', ''pay-service''), (''version'', ''2'')]
          \<lparr>store = [order_o1\<lparr>LastHeartbeat := 900\<rparr>, pay_p2\<lparr>LastHeartbeat := 900\<rparr>], ws = hub0\<rparr>) =
     \<lparr>status = 200, body = NullBody\<rparr>"
proof -
  have computed: ?thesis
    by (simp add: lookup_handler_def Let_def URL_Query_def Query_def parseString_def Find_def Find_docs_def
        Find_filter_def matches_def doc_field_def marshal_instance_def md_field_def order_o1_def pay_p2_def)
  show ?thesis
    using lookup_filter_coercion [of "''eu-west''" "Metadata pay_p2"
      "[(''service'', ''pay-service''), (''experimental'', ''true''), (''region'', ''eu-west'')]"
      "''region''" "BString ''eu-west''" 1000 "''pay-service''" "[]" True 30000
      "\<lparr>store = [order_o1\<lparr>LastHeartbeat := 900\<rparr>, pay_p2\<lparr>LastHeartbeat := 900\<rparr>], ws = hub0\<rparr>"]
    by - (rule computed)
qed

text \<open>Whenever no document matches, the body of the answer is \<open>null\<close>.\<close>

lemma lookup_no_match_general:
  "Find_docs (Find_filter now (Query q ''service'') (Query q ''mode'') (query_metadata q) True ttl) (store srv) = []
   \<Longrightarrow> fst (lookup_handler now ttl q srv) = \<lparr>status = 200, body = NullBody\<rparr>"
  by (simp add: lookup_handler_Find)

text \<open>
  Claim C7. The claim asks for status 200 and an empty JSON array, not \<open>null\<close>, when
  nothing matches. On an empty collection, and on one whose only record is stale, the
  handler answers 200 with the body \<open>null\<close>: \<open>instances\<close> is declared as a \<open>nil\<close> slice
  and stays \<open>nil\<close> when the cursor is empty.
\<close>

theorem lookup_no_match_null:
  "fst (lookup_handler 1000 30000 [(''service'', ''order-service'')] \<lparr>store = [], ws = hub0\<rparr>) =
     \<lparr>status = 200, body = NullBody\<rparr> \<and>
   fst (lookup_handler 40000 30000 [(''service'', ''pay-service'')] \<lparr>store = [pay_p2], ws = hub0\<rparr>) =
     \<lparr>status = 200, body = NullBody\<rparr>"
  by (simp add: lookup_handler_def Let_def URL_Query_def Query_def parseString_def Find_def Find_docs_def
      Find_filter_def matches_def doc_field_def marshal_instance_def md_field_def pay_p2_def)

section \<open>Broadcast\<close>

lemma heap_broadcast_step:
  "heap (broadcast_step msg a h) c =
     (if c = a then (if fst (WriteJSON (heap h a) msg) = None
                     then (heap h a)\<lparr>written := written (heap h a) @ [msg]\<rparr>
                     else (heap h a)\<lparr>closed := True\<rparr>)
      else heap h c)"
  by (simp add: broadcast_step_def WriteJSON_def Close_def)

lemma clients_broadcast_step:
  "clients (broadcast_step msg a h) =
     (if fst (WriteJSON (heap h a) msg) = None then clients h else removeAll a (clients h))"
  by (simp add: broadcast_step_def WriteJSON_def Close_def)

lemma heap_fold_broadcast:
  "distinct cs \<Longrightarrow>
   heap (fold (broadcast_step msg) cs h) c =
     (if c \<in> set cs then (if fst (WriteJSON (heap h c) msg) = None
                     then (heap h c)\<lparr>written := written (heap h c) @ [msg]\<rparr>
                     else (heap h c)\<lparr>closed := True\<rparr>)
      else heap h c)"
proof (induction cs arbitrary: h c)
  case Nil
  then show ?case by simp
next
  case (Cons a cs)
  from Cons.prems have d: "distinct cs" and a: "a \<notin> set cs" by simp_all
  show ?case
  proof (cases "c = a")
    case True
    with a show ?thesis by (simp add: Cons.IH[OF d] heap_broadcast_step)
  next
    case False
    then show ?thesis by (simp add: Cons.IH[OF d] heap_broadcast_step)
  qed
qed

lemma clients_fold_broadcast:
  "distinct cs \<Longrightarrow>
   clients (fold (broadcast_step msg) cs h) =
     filter (\<lambda>c. c \<in> set cs \<longrightarrow> fst (WriteJSON (heap h c) msg) = None) (clients h)"
proof (induction cs arbitrary: h)
  case Nil
  then show ?case by simp
next
  case (Cons a cs)
  from Cons.prems have d: "distinct cs" and a: "a \<notin> set cs" by simp_all
  have same: "c \<in> set cs \<Longrightarrow> heap (broadcast_step msg a h) c = heap h c" for c
    using a by (auto simp: heap_broadcast_step)
  have 1: "clients (fold (broadcast_step msg) (a # cs) h) =
      filter (\<lambda>c. c \<in> set cs \<longrightarrow> fst (WriteJSON (heap h c) msg) = None)
        (clients (broadcast_step msg a h))"
    using same by (simp add: Cons.IH[OF d] cong: filter_cong)
  show ?case
  proof (cases "fst (WriteJSON (heap h a) msg) = None")
    case True
    then show ?thesis unfolding 1 by (auto simp: clients_broadcast_step intro!: filter_cong)
  next
    case False
    then show ?thesis unfolding 1
      by (auto simp: clients_broadcast_step removeAll_filter_not_eq intro!: filter_cong)
  qed
qed

text \<open>
  Claim C8. In a broadcast over the registered clients, a client whose write fails is
  closed and removed from the registry, and every client whose write succeeds stays
  registered and has the message appended to what was written to it, wherever the
  failing clients stand in the order of the loop.
\<close>

theorem BroadcastMessage_isolation:
  "distinct (clients h) \<Longrightarrow>
   clients (BroadcastMessage msg h) =
     filter (\<lambda>c. fst (WriteJSON (heap h c) msg) = None) (clients h) \<and>
   (\<forall>c\<in>set (clients h).
      (fst (WriteJSON (heap h c) msg) = None \<longrightarrow>
         c \<in> set (clients (BroadcastMessage msg h)) \<and>
         written (heap (BroadcastMessage msg h) c) = written (heap h c) @ [msg]) \<and>
      (fst (WriteJSON (heap h c) msg) \<noteq> None \<longrightarrow>
         c \<notin> set (clients (BroadcastMessage msg h)) \<and>
         closed (heap (BroadcastMessage msg h) c)))"
proof -
  assume d: "distinct (clients h)"
  have c: "clients (BroadcastMessage msg h) =
     filter (\<lambda>c. fst (WriteJSON (heap h c) msg) = None) (clients h)"
    unfolding BroadcastMessage_def clients_fold_broadcast[OF d] by (auto intro!: filter_cong)
  have hp: "\<forall>c\<in>set (clients h).
      (fst (WriteJSON (heap h c) msg) = None \<longrightarrow>
         written (heap (BroadcastMessage msg h) c) = written (heap h c) @ [msg]) \<and>
      (fst (WriteJSON (heap h c) msg) \<noteq> None \<longrightarrow>
         closed (heap (BroadcastMessage msg h) c))"
    unfolding BroadcastMessage_def by (simp add: heap_fold_broadcast[OF d])
  show ?thesis using hp unfolding c by auto
qed

text \<open>Claim C8 with three clients, the second of which fails.\<close>

theorem BroadcastMessage_isolation_witness:
  "distinct (clients hub0) \<and>
   clients (BroadcastMessage msg0 hub0) = [1, 3] \<and>
   written (heap (BroadcastMessage msg0 hub0) 1) = [msg0] \<and>
   closed (heap (BroadcastMessage msg0 hub0) 2) \<and>
   written (heap (BroadcastMessage msg0 hub0) 2) = [] \<and>
   written (heap (BroadcastMessage msg0 hub0) 3) = [msg0]"
proof -
  have computed: ?thesis
    by (simp add: BroadcastMessage_def broadcast_step_def WriteJSON_def Close_def hub0_def)
  show ?thesis
    using BroadcastMessage_isolation [of hub0 msg0] by - (rule computed)
qed

section \<open>The routes\<close>





text \<open>
  Claim C6 as stated fails: with three clients registered, the first of them
  writable, a successful register request and a successful heartbeat request leave
  nothing written to that client.
\<close>

theorem no_broadcast_counterexample:
  "status (fst (register_handler 1000 (Some order_o1) srv0)) = 200 \<and>
   status (fst (heartbeat_handler 1000 (Some (''pay-service'', ''p2'')) srv0)) = 200 \<and>
   clients (ws srv0) = [1, 2, 3] \<and>
   fst (WriteJSON (heap (ws srv0) 1) msg0) = None \<and>
   written (heap (ws (snd (register_handler 1000 (Some order_o1) srv0))) 1) = [] \<and>
   written (heap (ws (snd (heartbeat_handler 1000 (Some (''pay-service'', ''p2'')) srv0))) 1) = []"
  by (simp add: register_handler_def heartbeat_handler_def ShouldBindJSON_def binding_ok_def
      oneof_env_def Register_def UpdateHeartbeat_def
      UpdateOne_def matches_def key_filter_def doc_field_def marshal_instance_def apply_set_def
      set_field_def upsert_seed_def zero_instance_def WriteJSON_def srv0_def hub0_def order_o1_def pay_p2_def)

text \<open>
  Claim C6, amended. No route calls \<open>BroadcastMessage\<close>: a register, heartbeat or
  lookup request leaves the client registry and every connection as they were, so no
  event reaches a subscriber.
\<close>

theorem handlers_do_not_broadcast:
  "ws (snd (register_handler now req srv)) = ws srv \<and>
   ws (snd (heartbeat_handler now hb srv)) = ws srv \<and>
   ws (snd (lookup_handler now ttl q srv)) = ws srv"
  by (simp add: register_handler_def heartbeat_handler_def lookup_handler_Find
      split: sum.splits option.splits prod.splits)

text \<open>Claim C6, amended, at the example state: the registry is the one before the request.\<close>

theorem handlers_do_not_broadcast_witness:
  "ws (snd (register_handler 1000 (Some order_o1) srv0)) = hub0 \<and>
   ws (snd (heartbeat_handler 1000 (Some (''pay-service'', ''p2'')) srv0)) = hub0 \<and>
   ws (snd (lookup_handler 1000 30000 [(''service'', ''pay-service'')] srv0)) = hub0"
  using handlers_do_not_broadcast [of 1000 "Some order_o1" srv0 "Some (''pay-service'', ''p2'')" 30000
      "[(''service'', ''pay-service'')]"]
  by (simp add: srv0_def)

end
